theory Spec2Isabelle
  imports Complex_Main "HOL-Library.Word"
begin

section \<open>JavaScript values: strings, buffers, regular expressions\<close>

text \<open>
  A JavaScript string is a sequence of UTF-16 code units and a Node Buffer is a sequence
  of bytes. Encoding names and detector labels are ASCII and are kept as HOL strings;
  decoded file contents and CSV cells are code-unit lists, because the scripts look at
  code units beyond ASCII (U+FFFD, the no-break space that \<open>trim\<close> removes, the
  characters of the localized date pattern).
\<close>

type_synonym byte = "8 word"
type_synonym unit16 = "16 word"
type_synonym jsstring = "unit16 list"

definition js :: "string \<Rightarrow> jsstring" where
  "js s = map (\<lambda>c. of_nat (of_char c)) s"

text \<open>
  The values a CSV cell can hold after \<open>mapValues\<close>: \<open>null\<close>, a number, a
  \<open>Date\<close>, or a string. The results of \<open>Number(value)\<close> and \<open>new Date(value)\<close>
  are left abstract (type parameters): they are computed by the engine, and nothing in the
  scripts looks inside them.
\<close>

datatype ('n, 'd) jsvalue = JNull | JNum 'n | JDate 'd | JStr jsstring

datatype error =
    TypeError
  | ReadFailed
  | AllEncodingsFailed

subsection \<open>Character classes and \<open>String.prototype.trim\<close>\<close>

text \<open>
  A character class \<open>[a-bc-d...]\<close> is a list of inclusive code-unit ranges.
  \<open>s.replace(/[class]/g, '')\<close> deletes every code unit of the class;
  \<open>s.match(/[class]/g)\<close> returns the array of the matched code units, or \<open>null\<close>
  (here \<open>None\<close>) when there is none.
\<close>

type_synonym charclass = "(unit16 \<times> unit16) list"

definition inClass :: "charclass \<Rightarrow> unit16 \<Rightarrow> bool" where
  "inClass cls c = list_ex (\<lambda>(lo, hi). lo \<le> c \<and> c \<le> hi) cls"

fun replace_g :: "charclass \<Rightarrow> jsstring \<Rightarrow> jsstring" where
  "replace_g cls [] = []"
| "replace_g cls (c # s) = (if inClass cls c then replace_g cls s else c # replace_g cls s)"

fun matches_g :: "charclass \<Rightarrow> jsstring \<Rightarrow> jsstring" where
  "matches_g cls [] = []"
| "matches_g cls (c # s) = (if inClass cls c then c # matches_g cls s else matches_g cls s)"

definition match_g :: "charclass \<Rightarrow> jsstring \<Rightarrow> jsstring option" where
  "match_g cls s = (case matches_g cls s of [] \<Rightarrow> None | m # ms \<Rightarrow> Some (m # ms))"

text \<open>
  \<open>trim\<close> removes the ECMAScript WhiteSpace and LineTerminator code units from both
  ends: TAB, LF, VT, FF, CR, SP, NBSP, U+1680, U+2000..U+200A, U+2028, U+2029, U+202F,
  U+205F, U+3000 and U+FEFF.
\<close>

definition isWhiteSpace :: "unit16 \<Rightarrow> bool" where
  "isWhiteSpace c \<longleftrightarrow>
     inClass [(0x09, 0x0D), (0x20, 0x20), (0xA0, 0xA0), (0x1680, 0x1680), (0x2000, 0x200A),
              (0x2028, 0x2029), (0x202F, 0x202F), (0x205F, 0x205F), (0x3000, 0x3000),
              (0xFEFF, 0xFEFF)] c"

definition trimStart :: "jsstring \<Rightarrow> jsstring" where
  "trimStart s = dropWhile isWhiteSpace s"

definition trimEnd :: "jsstring \<Rightarrow> jsstring" where
  "trimEnd s = rev (dropWhile isWhiteSpace (rev s))"

definition trim :: "jsstring \<Rightarrow> jsstring" where
  "trim s = trimEnd (trimStart s)"

subsection \<open>Anchored regular expressions\<close>

text \<open>
  The patterns that \<open>mapValues\<close> tests are all of the form \<open>/^...$/\<close> with no flags, so
  \<open>pattern.test(s)\<close> asks whether the whole of \<open>s\<close> belongs to the language of the
  pattern. The language is decided by derivatives.
\<close>

datatype regex =
    Fail
  | Eps
  | Class charclass
  | Seq regex regex
  | Alt regex regex
  | Star regex

fun nullable :: "regex \<Rightarrow> bool" where
  "nullable Fail = False"
| "nullable Eps = True"
| "nullable (Class cls) = False"
| "nullable (Seq r s) = (nullable r \<and> nullable s)"
| "nullable (Alt r s) = (nullable r \<or> nullable s)"
| "nullable (Star r) = True"

fun deriv :: "unit16 \<Rightarrow> regex \<Rightarrow> regex" where
  "deriv c Fail = Fail"
| "deriv c Eps = Fail"
| "deriv c (Class cls) = (if inClass cls c then Eps else Fail)"
| "deriv c (Seq r s) =
     (if nullable r then Alt (Seq (deriv c r) s) (deriv c s) else Seq (deriv c r) s)"
| "deriv c (Alt r s) = Alt (deriv c r) (deriv c s)"
| "deriv c (Star r) = Seq (deriv c r) (Star r)"

fun test :: "regex \<Rightarrow> jsstring \<Rightarrow> bool" where
  "test r [] = nullable r"
| "test r (c # s) = test (deriv c r) s"

definition Chr :: "unit16 \<Rightarrow> regex" where
  "Chr c = Class [(c, c)]"

definition Opt :: "regex \<Rightarrow> regex" where
  "Opt r = Alt r Eps"

definition Plus :: "regex \<Rightarrow> regex" where
  "Plus r = Seq r (Star r)"

fun Seqs :: "regex list \<Rightarrow> regex" where
  "Seqs [] = Eps"
| "Seqs [r] = r"
| "Seqs (r # rs) = Seq r (Seqs rs)"

definition digit :: regex where
  "digit = Class [(0x30, 0x39)]"

definition digits4 :: regex where
  "digits4 = Seqs [digit, digit, digit, digit]"

definition digits1or2 :: regex where
  "digits1or2 = Seq digit (Opt digit)"

definition dashOrSlash :: regex where
  "dashOrSlash = Class [(0x2D, 0x2D), (0x2F, 0x2F)]"

section \<open>2xlsx.js: the cell normalizer \<open>mapValues\<close>\<close>

text \<open>
  \<open>/[\x00-\x1F\x7F]/g\<close>, the class that \<open>mapValues\<close> deletes from a cell.
\<close>

definition invisibleChars :: charclass where
  "invisibleChars = [(0x00, 0x1F), (0x7F, 0x7F)]"

text \<open>\<open>/^-?\d*\.?\d+$/\<close>\<close>

definition numberPattern :: regex where
  "numberPattern = Seqs [Opt (Chr 0x2D), Star digit, Opt (Chr 0x2E), Plus digit]"

text \<open>
  \<open>/^\d{4}[-/]\d{1,2}[-/]\d{1,2}$/\<close>, \<open>/^\d{1,2}[-/]\d{1,2}[-/]\d{4}$/\<close> and
  \<open>/^\d{4}\<close>U+5E74\<open>\d{1,2}\<close>U+6708\<open>\d{1,2}\<close>U+65E5\<open>$/\<close>.
\<close>

definition dateFormats :: "regex list" where
  "dateFormats =
     [Seqs [digits4, dashOrSlash, digits1or2, dashOrSlash, digits1or2],
      Seqs [digits1or2, dashOrSlash, digits1or2, dashOrSlash, digits4],
      Seqs [digits4, Chr 0x5E74, digits1or2, Chr 0x6708, digits1or2, Chr 0x65E5]]"

text \<open>
  \<open>mapValues\<close> (2xlsx.js, lines 162-187). \<open>toNumber v\<close> is \<open>Number(v)\<close>, with
  \<open>None\<close> for \<open>NaN\<close>; \<open>newDate v\<close> is \<open>new Date(v)\<close>, with \<open>None\<close> for an
  invalid date. csv-parser calls the function with string cells only; on any other value
  \<open>value === ''\<close> is false and \<open>value.replace\<close> is not callable, which raises a
  \<open>TypeError\<close>.
\<close>

definition mapValues ::
  "(jsstring \<Rightarrow> 'n option) \<Rightarrow> (jsstring \<Rightarrow> 'd option) \<Rightarrow> ('n, 'd) jsvalue
     \<Rightarrow> error + ('n, 'd) jsvalue" where
  "mapValues toNumber newDate value =
     (case value of
        JStr raw \<Rightarrow>
          if raw = [] then Inr JNull
          else
            let v = trim (replace_g invisibleChars raw) in
            (case (if test numberPattern v then toNumber v else None) of
               Some num \<Rightarrow> Inr (JNum num)
             | None \<Rightarrow>
                (case (if list_ex (\<lambda>format. test format v) dateFormats then newDate v
                       else None) of
                   Some date \<Rightarrow> Inr (JDate date)
                 | None \<Rightarrow> Inr (JStr v)))
      | _ \<Rightarrow> Inl TypeError)"

section \<open>2xlsx.js: choosing an encoding\<close>

text \<open>
  The collaborators of \<open>detectFileEncoding\<close> are parameters of the model.
  \<^item> \<open>jschardet.detect(buffer)\<close> either throws, or returns nothing usable (\<open>!result\<close>),
    or returns a label (possibly \<open>null\<close>) with a confidence. A confidence is a
    finite double and is modelled by its exact rational value.
  \<^item> \<open>iconv.decode(buffer, enc)\<close> and \<open>iconv.encode(text, enc)\<close> return a value or
    throw (\<open>None\<close>).
  \<^item> \<open>fs.readFileSync(filePath)\<close> returns the buffer or throws (\<open>None\<close>).
\<close>

datatype detection = DetectThrows | NoResult | Detected "string option" rat

type_synonym detector = "byte list \<Rightarrow> detection"
type_synonym decoder = "byte list \<Rightarrow> string \<Rightarrow> jsstring option"
type_synonym encoder = "jsstring \<Rightarrow> string \<Rightarrow> byte list option"

text \<open>
  String helpers on labels. Labels are ASCII, where \<open>toLowerCase\<close> maps \<open>A\<close>..\<open>Z\<close> to
  \<open>a\<close>..\<open>z\<close>; \<open>s.includes(sub)\<close> looks for a contiguous occurrence;
  \<open>s.replace('-', '')\<close> with a string pattern deletes the first hyphen only, which is
  \<^const>\<open>remove1\<close>.
\<close>

definition toLowerCase :: "string \<Rightarrow> string" where
  "toLowerCase s =
     map (\<lambda>c. case map_of (zip ''ABCDEFGHIJKLMNOPQRSTUVWXYZ'' ''abcdefghijklmnopqrstuvwxyz'') c of
                Some lower \<Rightarrow> lower
              | None \<Rightarrow> c) s"

fun includes_str :: "string \<Rightarrow> string \<Rightarrow> bool" where
  "includes_str [] sub = (sub = [])"
| "includes_str (c # s) sub = (take (length sub) (c # s) = sub \<or> includes_str s sub)"

text \<open>
  The own properties of the object literal \<open>encodingMap\<close> (lines 56-64). A lookup
  \<open>encodingMap[encoding]\<close> also sees what the object inherits: of the inherited names only
  \<open>constructor\<close> and \<open>__proto__\<close> are lower-case, and for them the lookup yields an
  object that has no such method, so line 69 raises a \<open>TypeError\<close>.
\<close>

definition encodingMap :: "(string \<times> string) list" where
  "encodingMap =
     [(''gb2312'', ''gbk''), (''gb18030'', ''gbk''), (''windows-1252'', ''cp1252''),
      (''iso-8859-1'', ''latin1''), (''ascii'', ''utf8''), (''utf-16le'', ''utf16le''),
      (''utf-16be'', ''utf16be'')]"

text \<open>Lines 53-76: the label is normalised, or a \<open>TypeError\<close> is raised (\<open>None\<close>).\<close>

definition normalizeEncoding :: "string \<Rightarrow> string option" where
  "normalizeEncoding label =
     (let encoding = toLowerCase label in
      if encoding = ''constructor'' \<or> encoding = ''__proto__'' then None
      else
        let encoding = (case map_of encodingMap encoding of Some e \<Rightarrow> e | None \<Rightarrow> encoding) in
        if includes_str encoding ''gb'' \<or> includes_str encoding ''gbk'' then Some ''gbk''
        else if includes_str encoding ''utf'' then Some (toLowerCase (remove1 CHR ''-'' encoding))
        else Some encoding)"

text \<open>Lines 18-31: the byte-order-mark test, inside its length guard.\<close>

definition sniffBOM :: "byte list \<Rightarrow> string option" where
  "sniffBOM buffer =
     (if length buffer \<ge> 3 then
        if buffer ! 0 = 0xEF \<and> buffer ! 1 = 0xBB \<and> buffer ! 2 = 0xBF then Some ''utf8''
        else if buffer ! 0 = 0xFE \<and> buffer ! 1 = 0xFF then Some ''utf16be''
        else if buffer ! 0 = 0xFF \<and> buffer ! 1 = 0xFE then Some ''utf16le''
        else None
      else None)"

definition testEncodings :: "string list" where
  "testEncodings = [''utf8'', ''gbk'', ''big5'', ''shift-jis'']"

text \<open>
  Lines 35-46: the loop over \<open>testEncodings\<close>. A throw of either codec call is caught
  and the loop continues.
\<close>

fun verifyEncodings :: "decoder \<Rightarrow> encoder \<Rightarrow> byte list \<Rightarrow> string list \<Rightarrow> string option" where
  "verifyEncodings decode encode buffer [] = None"
| "verifyEncodings decode encode buffer (enc # rest) =
     (case decode buffer enc of
        None \<Rightarrow> verifyEncodings decode encode buffer rest
      | Some decoded \<Rightarrow>
          (case encode decoded enc of
             None \<Rightarrow> verifyEncodings decode encode buffer rest
           | Some reEncoded \<Rightarrow>
               if buffer = reEncoded then Some enc
               else verifyEncodings decode encode buffer rest))"

text \<open>
  The literal \<open>0.85\<close> of line 16 is a double too: the double nearest to the decimal,
  which is \<open>7656119366529843 / 2^53\<close> and lies a little below it. The comparison
  \<open>result.confidence < 0.85\<close> of two doubles is the comparison of their exact values.
\<close>

definition confidenceThreshold :: rat where
  "confidenceThreshold = 7656119366529843 / 9007199254740992"

text \<open>\<open>!result || result.confidence < 0.85\<close>\<close>

fun lowConfidence :: "detection \<Rightarrow> bool" where
  "lowConfidence (Detected label confidence) = (confidence < confidenceThreshold)"
| "lowConfidence _ = True"

text \<open>
  \<open>detectFileEncoding\<close> (lines 9-81). Every throw inside the body ends in the
  \<open>catch\<close> of line 77, which returns \<open>'utf8'\<close>: a failed read, a failed detector call,
  \<open>result.encoding.toLowerCase()\<close> on a \<open>null\<close> label, and the \<open>TypeError\<close> of
  the normalisation.
\<close>

definition detectFileEncoding ::
  "detector \<Rightarrow> decoder \<Rightarrow> encoder \<Rightarrow> byte list option \<Rightarrow> string" where
  "detectFileEncoding detect decode encode file =
     (case file of
        None \<Rightarrow> ''utf8''
      | Some buffer \<Rightarrow>
          (case detect buffer of
             DetectThrows \<Rightarrow> ''utf8''
           | result \<Rightarrow>
               if lowConfidence result then
                 (case sniffBOM buffer of
                    Some enc \<Rightarrow> enc
                  | None \<Rightarrow>
                      (case verifyEncodings decode encode buffer testEncodings of
                         Some enc \<Rightarrow> enc
                       | None \<Rightarrow> ''utf8''))
               else
                 (case result of
                    Detected (Some label) confidence \<Rightarrow>
                      (case normalizeEncoding label of Some encoding \<Rightarrow> encoding | None \<Rightarrow> ''utf8'')
                  | _ \<Rightarrow> ''utf8'')))"

section \<open>2xlsx.js: decoding and repair\<close>

text \<open>
  \<open>/[\uFFFD\u0000-\u0008\u000B-\u000C\u000E-\u001F]/g\<close>, the signs of a wrong decode
  that \<open>readAndDecodeCSV\<close> counts.
\<close>

definition garbleChars :: charclass where
  "garbleChars = [(0xFFFD, 0xFFFD), (0x0000, 0x0008), (0x000B, 0x000C), (0x000E, 0x001F)]"

definition fallbackEncodings :: "string list" where
  "fallbackEncodings = [''utf8'', ''gbk'', ''big5'', ''shift-jis'', ''cp1252'']"

definition alternativeEncodings :: "string list" where
  "alternativeEncodings = [''gbk'', ''big5'', ''shift-jis'']"

text \<open>
  Lines 96-106: the loop of the \<open>catch\<close> branch. It returns from the whole function at
  the first fallback that decodes; \<open>None\<close> is the end of the loop, where line 106 throws.
\<close>

fun tryFallbacks :: "decoder \<Rightarrow> byte list \<Rightarrow> string \<Rightarrow> string list \<Rightarrow> jsstring option" where
  "tryFallbacks decode buffer encoding [] = None"
| "tryFallbacks decode buffer encoding (fallbackEncoding # rest) =
     (if fallbackEncoding = encoding then tryFallbacks decode buffer encoding rest
      else
        (case decode buffer fallbackEncoding of
           Some content \<Rightarrow> Some content
         | None \<Rightarrow> tryFallbacks decode buffer encoding rest))"

text \<open>
  Lines 115-126: the loop over \<open>alternativeEncodings\<close>. It returns the first alternative
  text with no match at all, or with fewer matches than \<open>invalidChars\<close>; \<open>None\<close> is
  the end of the loop.
\<close>

fun tryAlternatives :: "decoder \<Rightarrow> byte list \<Rightarrow> jsstring \<Rightarrow> string list \<Rightarrow> jsstring option" where
  "tryAlternatives decode buffer invalidChars [] = None"
| "tryAlternatives decode buffer invalidChars (altEncoding # rest) =
     (case decode buffer altEncoding of
        None \<Rightarrow> tryAlternatives decode buffer invalidChars rest
      | Some altContent \<Rightarrow>
          (case match_g garbleChars altContent of
             None \<Rightarrow> Some altContent
           | Some altInvalidChars \<Rightarrow>
               if length altInvalidChars < length invalidChars then Some altContent
               else tryAlternatives decode buffer invalidChars rest))"

text \<open>
  Lines 109-129. The test \<open>invalidChars.length > content.length * 0.1\<close> multiplies in
  double precision; for every length a string can have, the product is so close to the
  exact tenth that the comparison with an integer agrees with \<open>10 * k > n\<close> on integers.
\<close>

definition rescan :: "decoder \<Rightarrow> byte list \<Rightarrow> jsstring \<Rightarrow> jsstring" where
  "rescan decode buffer content =
     (case match_g garbleChars content of
        None \<Rightarrow> content
      | Some invalidChars \<Rightarrow>
          if 10 * length invalidChars > length content then
            (case tryAlternatives decode buffer invalidChars alternativeEncodings of
               Some altContent \<Rightarrow> altContent
             | None \<Rightarrow> content)
          else content)"

text \<open>
  \<open>readAndDecodeCSV\<close> (lines 84-133). Both failures, of the read and of every fallback,
  leave through the outer \<open>catch\<close>, which rethrows them as one decode failure with the
  cause in its message.
\<close>

definition readAndDecodeCSV :: "decoder \<Rightarrow> byte list option \<Rightarrow> string \<Rightarrow> error + jsstring" where
  "readAndDecodeCSV decode file encoding =
     (case file of
        None \<Rightarrow> Inl ReadFailed
      | Some buffer \<Rightarrow>
          (case decode buffer encoding of
             None \<Rightarrow>
               (case tryFallbacks decode buffer encoding fallbackEncodings of
                  Some content \<Rightarrow> Inr content
                | None \<Rightarrow> Inl AllEncodingsFailed)
           | Some content \<Rightarrow> Inr (rescan decode buffer content)))"

text \<open>
  \<open>convertCsvToExcel\<close> (lines 135-242), up to the point where the decoded text is handed
  on: \<open>writeSheet\<close> stands for parsing the text and writing the workbook, and says
  whether that completed. Every throw is caught at line 238 and becomes \<open>false\<close>.
\<close>

definition convertCsvToExcel ::
  "detector \<Rightarrow> decoder \<Rightarrow> encoder \<Rightarrow> (jsstring \<Rightarrow> bool) \<Rightarrow> byte list option \<Rightarrow> bool" where
  "convertCsvToExcel detect decode encode writeSheet file =
     (let encoding = detectFileEncoding detect decode encode file in
      case readAndDecodeCSV decode file encoding of
        Inl err \<Rightarrow> False
      | Inr csvContent \<Rightarrow>
          if csvContent = [] \<or> length (trim csvContent) = 0 then False
          else writeSheet csvContent)"

text \<open>
  The loop of \<open>processDirectory\<close> (lines 263-287) over the CSV files of the directory,
  with the conversion of one file as a parameter.
\<close>

record 'f results =
  success :: nat
  failed :: nat
  total :: nat
  failedFiles :: "'f list"

fun convertEach :: "('f \<Rightarrow> bool) \<Rightarrow> 'f list \<Rightarrow> 'f results \<Rightarrow> 'f results" where
  "convertEach convert [] results = results"
| "convertEach convert (csvFile # rest) results =
     convertEach convert rest
       (if convert csvFile then results\<lparr>success := success results + 1\<rparr>
        else results\<lparr>failed := failed results + 1,
                     failedFiles := failedFiles results @ [csvFile]\<rparr>)"

definition processDirectory :: "('f \<Rightarrow> bool) \<Rightarrow> 'f list \<Rightarrow> 'f results" where
  "processDirectory convert csvFiles =
     convertEach convert csvFiles
       \<lparr>success = 0, failed = 0, total = length csvFiles, failedFiles = []\<rparr>"

section \<open>2xlsx2.js: cleaning and filtering records\<close>

text \<open>
  A parsed record is an object; it is modelled by its own properties in insertion order.
  \<open>config.allowedPatientIds\<close> is the only part of \<open>config\<close> that \<open>on_record\<close> reads.
\<close>

type_synonym ('n, 'd) row = "(jsstring \<times> ('n, 'd) jsvalue) list"

record config =
  allowedPatientIds :: "jsstring list"

definition config :: config where
  "config = \<lparr>allowedPatientIds = [js ''PA100'']\<rparr>"

text \<open>\<open>/[\x00-\x09\x0B-\x1F\x7F]/g\<close>\<close>

definition controlChars :: charclass where
  "controlChars = [(0x00, 0x09), (0x0B, 0x1F), (0x7F, 0x7F)]"

text \<open>Lines 82-86: a string property is cleaned, any other value is left alone.\<close>

definition cleanValue :: "('n, 'd) jsvalue \<Rightarrow> ('n, 'd) jsvalue" where
  "cleanValue v = (case v of JStr s \<Rightarrow> JStr (trim (replace_g controlChars s)) | other \<Rightarrow> other)"

text \<open>
  \<open>on_record\<close> (lines 79-95). In \<open>record.PATIENT_ID && allowed.includes(record.PATIENT_ID)\<close>
  a missing or empty identifier is falsy, and a value that is not a string is never a
  member of the list of strings, so only a non-empty string that is listed passes.
\<close>

definition on_record :: "('n, 'd) row \<Rightarrow> ('n, 'd) row option" where
  "on_record row =
     (let cleaned = map (\<lambda>(key, v). (key, cleanValue v)) row in
      case map_of cleaned (js ''PATIENT_ID'') of
        Some (JStr patientId) \<Rightarrow>
          if patientId \<noteq> [] \<and> patientId \<in> set (allowedPatientIds config) then Some cleaned
          else None
      | _ \<Rightarrow> None)"

text \<open>
  \<open>parseCSVContent\<close> (lines 75-105) on the records that csv-parse hands to
  \<open>on_record\<close>: csv-parse leaves out a record for which the callback returns \<open>null\<close>, so
  the later \<open>filter(record => record !== null)\<close> keeps everything it is given.
\<close>

definition parseCSVContent :: "('n, 'd) row list \<Rightarrow> ('n, 'd) row list" where
  "parseCSVContent rows = List.map_filter on_record rows"

text \<open>Lines 114-116: records with some value that is neither \<open>null\<close> nor \<open>''\<close>.\<close>

definition validRecords :: "('n, 'd) row list \<Rightarrow> ('n, 'd) row list" where
  "validRecords records =
     filter (\<lambda>row. list_ex (\<lambda>(key, v). v \<noteq> JNull \<and> v \<noteq> JStr []) row) records"

section \<open>Stand-ins for the examples\<close>

text \<open>
  An engine on which no conversion succeeds. The examples use it on cells that reach
  neither \<open>Number\<close> nor \<open>Date\<close>.
\<close>

definition noNumber :: "jsstring \<Rightarrow> unit option" where
  "noNumber v = None"

definition noDate :: "jsstring \<Rightarrow> unit option" where
  "noDate v = None"

text \<open>
  An engine that converts strings of decimal digits, for the examples whose cell cleans to
  such a string.
\<close>

definition digitsNumber :: "jsstring \<Rightarrow> nat option" where
  "digitsNumber v =
     (if v \<noteq> [] \<and> list_all (inClass [(0x30, 0x39)]) v
      then Some (foldl (\<lambda>n c. 10 * n + (unat c - 48)) 0 v) else None)"

text \<open>Two parsed records, one for each patient identifier of the filter's examples.\<close>

definition rowPA999 :: "(unit, unit) row" where
  "rowPA999 = [(js ''PATIENT_ID'', JStr (js ''PA999'')), (js ''NAME'', JStr (js ''Wu''))]"

definition rowPA100 :: "(unit, unit) row" where
  "rowPA100 = [(js ''PATIENT_ID'', JStr (js ''PA100'')), (js ''NAME'', JStr [0x20, 0x4C, 0x09, 0x69, 0x20])]"

section \<open>The specification's vocabulary\<close>

text \<open>
  Three notions that the specification names and the scripts compute inline. They are
  written from the specification's words, to state what the code is compared with.
  \<^item> The Byte Sniffer of the specification: the leading bytes are compared with the three
    signatures in order, and a buffer of fewer than two bytes matches none.
  \<^item> The Round-Trip Validator: decoding and encoding again gives back the buffer; a
    failure of either step does not validate.
  \<^item> The BadCharacterScore, as a count: the replacement characters and the low control
    characters other than TAB, LF and CR.
\<close>

definition spec_sniff :: "byte list \<Rightarrow> string option" where
  "spec_sniff buffer =
     (if take 3 buffer = [0xEF, 0xBB, 0xBF] then Some ''utf8''
      else if take 2 buffer = [0xFE, 0xFF] then Some ''utf16be''
      else if take 2 buffer = [0xFF, 0xFE] then Some ''utf16le''
      else None)"

definition validate :: "decoder \<Rightarrow> encoder \<Rightarrow> byte list \<Rightarrow> string \<Rightarrow> bool" where
  "validate decode encode buffer enc =
     (case decode buffer enc of
        None \<Rightarrow> False
      | Some decoded \<Rightarrow> encode decoded enc = Some buffer)"

definition badCharacterScore :: "jsstring \<Rightarrow> nat" where
  "badCharacterScore content =
     length (filter (\<lambda>c. c = 0xFFFD \<or> c \<le> 0x08 \<or> (0x0B \<le> c \<and> c \<le> 0x0C)
                          \<or> (0x0E \<le> c \<and> c \<le> 0x1F)) content)"

subsection \<open>Codecs and detectors for the examples\<close>

text \<open>
  A decoder given by a table from encoding names to texts (a name that is not listed
  throws), and a codec that knows ASCII only: a byte below \<open>0x80\<close> decodes to itself and
  any other byte to U+FFFD, a code unit below \<open>0x80\<close> encodes to itself and any other
  to \<open>?\<close>, and an unknown encoding name throws.
\<close>

definition tableDecode :: "(string \<times> jsstring) list \<Rightarrow> decoder" where
  "tableDecode table buffer enc = map_of table enc"

definition knownEncodings :: "string list" where
  "knownEncodings =
     [''utf8'', ''gbk'', ''big5'', ''shift-jis'', ''cp1252'', ''latin1'', ''utf16le'', ''utf16be'']"

definition asciiDecode :: decoder where
  "asciiDecode buffer enc =
     (if enc \<in> set knownEncodings
      then Some (map (\<lambda>b. if b < 0x80 then ucast b else 0xFFFD) buffer) else None)"

definition asciiEncode :: encoder where
  "asciiEncode content enc =
     (if enc \<in> set knownEncodings
      then Some (map (\<lambda>c. if c < 0x80 then ucast c else 0x3F) content) else None)"

text \<open>
  Two detectors: one that throws, and one that is unsure (confidence 0.5 for
  \<open>GB2312\<close>).
\<close>

definition throwingDetector :: detector where
  "throwingDetector buffer = DetectThrows"

definition unsureDetector :: detector where
  "unsureDetector buffer = Detected (Some ''GB2312'') (1 / 2)"

text \<open>
  An encoder given by a table, a decoder that rejects every buffer starting with the byte
  \<open>0xFF\<close>, a detector that is sure of \<open>GB2312\<close> (confidence 0.99), a detector
  that is sure (confidence 0.9) but gives no label, a detector whose confidence for
  \<open>GB2312\<close> is exactly the double \<open>0.85\<close>, and a sheet writer that always completes.
\<close>

definition tableEncode :: "((string \<times> jsstring) \<times> byte list) list \<Rightarrow> encoder" where
  "tableEncode table content enc = map_of table (enc, content)"

definition rejectFF :: decoder where
  "rejectFF buffer enc = (if take 1 buffer = [0xFF] then None else asciiDecode buffer enc)"

definition sureDetector :: detector where
  "sureDetector buffer = Detected (Some ''GB2312'') (99 / 100)"

definition labellessDetector :: detector where
  "labellessDetector buffer = Detected None (9 / 10)"

definition boundaryDetector :: detector where
  "boundaryDetector buffer = Detected (Some ''GB2312'') (7656119366529843 / 9007199254740992)"

definition alwaysWrites :: "jsstring \<Rightarrow> bool" where
  "alwaysWrites csvContent = True"

text \<open>
  The codec on the two bytes \<open>D6 D0\<close>, which are one Chinese character (U+4E2D) in GBK
  and two invalid sequences in UTF-8.
\<close>

definition zhongDecoded :: "(string \<times> jsstring) list" where
  "zhongDecoded = [(''utf8'', [0xFFFD, 0xFFFD]), (''gbk'', [0x4E2D])]"

definition zhongEncoded :: "((string \<times> jsstring) \<times> byte list) list" where
  "zhongEncoded =
     [((''utf8'', [0xFFFD, 0xFFFD]), [0xEF, 0xBF, 0xBD, 0xEF, 0xBF, 0xBD]),
      ((''gbk'', [0x4E2D]), [0xD6, 0xD0])]"

text \<open>
  Decodes of one buffer under several encodings, for the repair step:
  \<^item> \<open>atThreshold\<close>: the UTF-8 text has one bad character in ten, the GBK text none;
  \<^item> \<open>betterAndBest\<close>: two bad characters under UTF-8, one under GBK, none under Big5;
  \<^item> \<open>longerText\<close>: two bad characters of four under UTF-8, two of eight under GBK;
  \<^item> \<open>noneBetter\<close>: two bad characters of three under UTF-8, and as many under GBK.
\<close>

definition atThreshold :: "(string \<times> jsstring) list" where
  "atThreshold =
     [(''utf8'', [0x69, 0x64, 0x2C, 0x6E, 0x61, 0x6D, 0x65, 0x2C, 0x63, 0xFFFD]),
      (''gbk'', [0x69, 0x64, 0x2C, 0x6E, 0x61, 0x6D, 0x65, 0x2C, 0x63, 0x6E])]"

definition betterAndBest :: "(string \<times> jsstring) list" where
  "betterAndBest =
     [(''utf8'', [0xFFFD, 0xFFFD, 0x41]), (''gbk'', [0xFFFD, 0x41, 0x42]), (''big5'', [0x41, 0x42])]"

definition longerText :: "(string \<times> jsstring) list" where
  "longerText =
     [(''utf8'', [0xFFFD, 0xFFFD, 0x41, 0x42]),
      (''gbk'', [0xFFFD, 0xFFFD, 0x41, 0x42, 0x43, 0x44, 0x45, 0x46])]"

definition noneBetter :: "(string \<times> jsstring) list" where
  "noneBetter = [(''utf8'', [0xFFFD, 0xFFFD, 0x41]), (''gbk'', [0xFFFD, 0x00, 0x41])]"

section \<open>Properties\<close>

subsection \<open>Cleaning and trimming\<close>

lemma replace_g_filter: "replace_g cls s = filter (\<lambda>c. \<not> inClass cls c) s"
  by (induction s) auto

lemma invisibleChars_iff: "inClass invisibleChars c \<longleftrightarrow> c \<le> 0x1F \<or> c = 0x7F"
  by (auto simp: inClass_def invisibleChars_def)

lemma set_trim: "set (trim s) \<subseteq> set s"
proof
  fix c assume "c \<in> set (trim s)"
  then have "c \<in> set (dropWhile isWhiteSpace (rev (dropWhile isWhiteSpace s)))"
    by (simp add: trim_def trimStart_def trimEnd_def)
  then have "c \<in> set (dropWhile isWhiteSpace s)"
    using set_dropWhileD by fastforce
  then show "c \<in> set s" by (rule set_dropWhileD)
qed

lemma trim_all_white: "\<forall>c\<in>set s. isWhiteSpace c \<Longrightarrow> trim s = []"
proof -
  assume "\<forall>c\<in>set s. isWhiteSpace c"
  then have d: "dropWhile isWhiteSpace s = []" by (simp add: dropWhile_eq_Nil_conv)
  show ?thesis unfolding trim_def trimStart_def trimEnd_def d by simp
qed

lemma trimEnd_self: "s \<noteq> [] \<Longrightarrow> \<not> isWhiteSpace (last s) \<Longrightarrow> trimEnd s = s"
  by (cases "rev s") (auto simp: trimEnd_def last_rev)

lemma trimStart_self: "s \<noteq> [] \<Longrightarrow> \<not> isWhiteSpace (hd s) \<Longrightarrow> trimStart s = s"
  by (cases s) (auto simp: trimStart_def)

lemma last_trimEnd: "trimEnd s \<noteq> [] \<Longrightarrow> \<not> isWhiteSpace (last (trimEnd s))"
  unfolding trimEnd_def by (simp add: last_rev hd_dropWhile)

lemma hd_trimStart: "trimStart s \<noteq> [] \<Longrightarrow> \<not> isWhiteSpace (hd (trimStart s))"
  unfolding trimStart_def by (simp add: hd_dropWhile)

lemma trimEnd_prefix: "\<exists>q. s = trimEnd s @ q \<and> list_all isWhiteSpace q"
proof -
  have "rev s = takeWhile isWhiteSpace (rev s) @ dropWhile isWhiteSpace (rev s)" by simp
  then have "s = rev (dropWhile isWhiteSpace (rev s)) @ rev (takeWhile isWhiteSpace (rev s))"
    by (metis rev_append rev_rev_ident)
  moreover have "list_all isWhiteSpace (rev (takeWhile isWhiteSpace (rev s)))"
    by (simp add: list_all_iff) (meson set_takeWhileD)
  ultimately show ?thesis unfolding trimEnd_def by blast
qed

lemma hd_trimEnd: "trimEnd s \<noteq> [] \<Longrightarrow> hd (trimEnd s) = hd s"
  using trimEnd_prefix [of s] by (metis hd_append2)

lemma hd_trim: "trim s \<noteq> [] \<Longrightarrow> \<not> isWhiteSpace (hd (trim s))"
  unfolding trim_def
  by (metis hd_trimEnd hd_trimStart trimEnd_def dropWhile.simps(1) rev.simps(1))

lemma last_trim: "trim s \<noteq> [] \<Longrightarrow> \<not> isWhiteSpace (last (trim s))"
  unfolding trim_def by (rule last_trimEnd)

lemma trim_trim: "trim (trim s) = trim s"
proof (cases "trim s = []")
  case True
  have "trim [] = []" by (simp add: trim_def trimStart_def trimEnd_def)
  with True show ?thesis by simp
next
  case False
  then have "trimStart (trim s) = trim s" by (simp add: trimStart_self hd_trim)
  moreover have "trimEnd (trim s) = trim s" using False by (simp add: trimEnd_self last_trim)
  ultimately show ?thesis by (simp add: trim_def [of "trim s"])
qed

lemma trim_decomp:
  "\<exists>p q. s = p @ trim s @ q \<and> list_all isWhiteSpace p \<and> list_all isWhiteSpace q"
proof -
  have "s = takeWhile isWhiteSpace s @ trimStart s" by (simp add: trimStart_def)
  moreover have "list_all isWhiteSpace (takeWhile isWhiteSpace s)"
    by (simp add: list_all_iff) (meson set_takeWhileD)
  moreover obtain q where "trimStart s = trim s @ q" "list_all isWhiteSpace q"
    using trimEnd_prefix [of "trimStart s"] by (auto simp: trim_def)
  ultimately show ?thesis by metis
qed

lemma replace_g_clean: "\<forall>c\<in>set s. \<not> inClass cls c \<Longrightarrow> replace_g cls s = s"
  by (induction s) auto

lemma replace_g_none_left: "c \<in> set (replace_g cls s) \<Longrightarrow> \<not> inClass cls c"
  by (simp add: replace_g_filter)

lemma clean_fixed:
  "trim (replace_g cls (trim (replace_g cls raw))) = trim (replace_g cls raw)"
proof -
  have "\<forall>c\<in>set (trim (replace_g cls raw)). \<not> inClass cls c"
    using set_trim replace_g_none_left by blast
  then show ?thesis by (simp add: replace_g_clean trim_trim)
qed

lemma test_number_empty: "\<not> nullable numberPattern"
  by (simp add: numberPattern_def Opt_def Chr_def Plus_def digit_def)

lemma test_dates_empty: "\<not> list_ex nullable dateFormats"
  by (simp add: dateFormats_def digits4_def digits1or2_def dashOrSlash_def Opt_def Chr_def digit_def)

subsection \<open>The cell normalizer of 2xlsx.js\<close>

text \<open>
  Claim C5. A cell whose input value is the empty string is normalized to \<open>null\<close>,
  never to the empty string, whatever the engine's conversions do.
\<close>

theorem mapValues_empty_is_null:
  "mapValues toNumber newDate (JStr []) = Inr JNull
   \<and> mapValues toNumber newDate (JStr []) \<noteq> Inr (JStr [])"
  by (simp add: mapValues_def)

text \<open>
  Claim C10. A cell that is not empty but holds only control characters (those of the
  deleted class, \<open>0x00\<close>..\<open>0x1F\<close> and \<open>0x7F\<close>) and white space is normalized to
  the empty string, not to \<open>null\<close>: the test for the empty string looks at the raw
  value, before the cleaning.
\<close>

theorem mapValues_blank_is_empty_string:
  assumes "raw \<noteq> []"
    and "\<forall>c\<in>set raw. c \<le> 0x1F \<or> c = 0x7F \<or> isWhiteSpace c"
  shows "mapValues toNumber newDate (JStr raw) = Inr (JStr [])"
proof -
  have "\<forall>c\<in>set (replace_g invisibleChars raw). isWhiteSpace c"
    using assms(2) by (auto simp: replace_g_filter invisibleChars_iff)
  then have "trim (replace_g invisibleChars raw) = []"
    by (rule trim_all_white)
  then show ?thesis
    using assms(1) by (simp add: mapValues_def test_number_empty test_dates_empty)
qed

text \<open>
  Claim C4, as amended. Normalizing is a fixed point on the non-empty strings it returns:
  when a cell normalizes to a non-empty string, normalizing that string again returns it
  unchanged.
\<close>

theorem mapValues_fixed_on_text:
  assumes "mapValues toNumber newDate (JStr raw) = Inr (JStr s)" and "s \<noteq> []"
  shows "mapValues toNumber newDate (JStr s) = Inr (JStr s)"
proof -
  from assms have raw: "raw \<noteq> []" by (auto simp: mapValues_def)
  define v where "v = trim (replace_g invisibleChars raw)"
  from assms(1) raw have s: "s = v"
    by (auto simp: mapValues_def v_def Let_def split: option.splits if_splits)
  have again: "trim (replace_g invisibleChars v) = v"
    unfolding v_def by (rule clean_fixed)
  from assms(1) raw s have "mapValues toNumber newDate (JStr raw) = Inr (JStr v)" by simp
  then have num: "(if test numberPattern v then toNumber v else None) = None"
    and dat: "(if list_ex (\<lambda>format. test format v) dateFormats then newDate v else None) = None"
    using raw unfolding mapValues_def v_def [symmetric]
    by (auto simp: Let_def split: option.splits if_splits)
  show ?thesis
    using assms(2) s num dat again
    by (simp add: mapValues_def Let_def del: test.simps split: option.splits)
qed


lemmas cell_eval =
  mapValues_def js_def trim_def trimStart_def trimEnd_def isWhiteSpace_def invisibleChars_def
  controlChars_def inClass_def numberPattern_def Opt_def Chr_def Plus_def digit_def
  dateFormats_def digits4_def digits1or2_def dashOrSlash_def noNumber_def noDate_def

theorem mapValues_empty_is_null_witness:
  "mapValues noNumber noDate (JStr []) = Inr JNull
   \<and> mapValues noNumber noDate (JStr []) \<noteq> Inr (JStr [])"
  using mapValues_empty_is_null [of noNumber noDate] by simp

theorem mapValues_blank_is_empty_string_witness:
  "mapValues noNumber noDate (JStr [0x09, 0x20, 0x7F, 0x3000]) = Inr (JStr [])"
proof -
  have a: "[0x09, 0x20, 0x7F, 0x3000] \<noteq> ([] :: jsstring)" by simp
  have b: "\<forall>c\<in>set [0x09, 0x20, 0x7F, 0x3000 :: unit16]. c \<le> 0x1F \<or> c = 0x7F \<or> isWhiteSpace c"
    by (simp add: isWhiteSpace_def inClass_def)
  show ?thesis by (rule mapValues_blank_is_empty_string [OF a b])
qed

theorem mapValues_fixed_on_text_witness:
  "mapValues noNumber noDate (JStr (js '' ab '')) = Inr (JStr (js ''ab''))
   \<and> js ''ab'' \<noteq> []
   \<and> mapValues noNumber noDate (JStr (js ''ab'')) = Inr (JStr (js ''ab''))"
proof -
  have a: "mapValues noNumber noDate (JStr (js '' ab '')) = Inr (JStr (js ''ab''))"
    by (simp add: cell_eval)
  have b: "js ''ab'' \<noteq> []" by (simp add: js_def)
  show ?thesis using mapValues_fixed_on_text [OF a b] a b by simp
qed

text \<open>
  Claim C4 as stated fails. The cell \<open>' '\<close> normalizes to \<open>''\<close>, and \<open>''\<close>
  normalizes to \<open>null\<close>; and the result \<open>null\<close> cannot be normalized again at all,
  the function raises a \<open>TypeError\<close> on it.
\<close>

theorem mapValues_not_idempotent:
  "mapValues noNumber noDate (JStr (js '' '')) = Inr (JStr [])
   \<and> mapValues noNumber noDate (JStr []) = Inr JNull
   \<and> mapValues noNumber noDate JNull = Inl TypeError"
  by (simp add: cell_eval)

subsection \<open>The deleted classes\<close>

lemma controlChars_iff:
  "inClass controlChars c \<longleftrightarrow> c \<le> 0x09 \<or> (0x0B \<le> c \<and> c \<le> 0x1F) \<or> c = 0x7F"
  by (auto simp: inClass_def controlChars_def)

lemma cleaned_free_of_class: "c \<in> set (trim (replace_g cls s)) \<Longrightarrow> \<not> inClass cls c"
  using set_trim replace_g_none_left by blast

text \<open>
  Claim C6, as amended. The two normalizers delete different classes, and neither is the
  class of the claim. The cell normalizer of 2xlsx.js deletes every code unit from
  \<open>0x00\<close> to \<open>0x1F\<close> and \<open>0x7F\<close>, so also TAB, LF and CR; the record cleaner of
  2xlsx2.js deletes \<open>0x00\<close>..\<open>0x09\<close>, \<open>0x0B\<close>..\<open>0x1F\<close> and \<open>0x7F\<close>, so every
  control character but LF. Both then trim: the cleaned text is what is left of the
  value without its leading and trailing white space, no deleted code unit occurs in it,
  and it neither starts nor ends with white space. The record cleaner returns the cleaned
  text; the cell normalizer decides on the cleaned text whether the cell becomes a
  number, a date or that text, and returns \<open>null\<close> for the empty cell.
\<close>

theorem cleaning_deletes_control_ranges:
  fixes raw :: jsstring
    and toNumber :: "jsstring \<Rightarrow> 'n option"
    and newDate :: "jsstring \<Rightarrow> 'd option"
  shows
    "(let v = trim (filter (\<lambda>c. \<not> (c \<le> 0x1F \<or> c = 0x7F)) raw) in
        mapValues toNumber newDate (JStr raw) =
          (if raw = [] then Inr JNull
           else
             (case (if test numberPattern v then toNumber v else None) of
                Some num \<Rightarrow> Inr (JNum num)
              | None \<Rightarrow>
                 (case (if list_ex (\<lambda>format. test format v) dateFormats then newDate v
                        else None) of
                    Some date \<Rightarrow> Inr (JDate date)
                  | None \<Rightarrow> Inr (JStr v))))
        \<and> (\<forall>c\<in>set v. \<not> (c \<le> 0x1F \<or> c = 0x7F))
        \<and> (v \<noteq> [] \<longrightarrow> \<not> isWhiteSpace (hd v) \<and> \<not> isWhiteSpace (last v)))
     \<and> (let w = trim (filter (\<lambda>c. \<not> (c \<le> 0x09 \<or> (0x0B \<le> c \<and> c \<le> 0x1F) \<or> c = 0x7F)) raw) in
        cleanValue (JStr raw :: ('n, 'd) jsvalue) = JStr w
        \<and> (\<forall>c\<in>set w. \<not> (c \<le> 0x09 \<or> (0x0B \<le> c \<and> c \<le> 0x1F) \<or> c = 0x7F))
        \<and> (w \<noteq> [] \<longrightarrow> \<not> isWhiteSpace (hd w) \<and> \<not> isWhiteSpace (last w)))"
proof -
  define v where "v = trim (replace_g invisibleChars raw)"
  define w where "w = trim (replace_g controlChars raw)"
  have v: "trim (filter (\<lambda>c. \<not> (c \<le> 0x1F \<or> c = 0x7F)) raw) = v"
    unfolding v_def by (simp add: replace_g_filter invisibleChars_iff)
  have w: "trim (filter (\<lambda>c. \<not> (c \<le> 0x09 \<or> (0x0B \<le> c \<and> c \<le> 0x1F) \<or> c = 0x7F)) raw) = w"
    unfolding w_def by (simp add: replace_g_filter controlChars_iff)
  have m: "mapValues toNumber newDate (JStr raw) =
          (if raw = [] then Inr JNull
           else
             (case (if test numberPattern v then toNumber v else None) of
                Some num \<Rightarrow> Inr (JNum num)
              | None \<Rightarrow>
                 (case (if list_ex (\<lambda>format. test format v) dateFormats then newDate v
                        else None) of
                    Some date \<Rightarrow> Inr (JDate date)
                  | None \<Rightarrow> Inr (JStr v))))"
    unfolding v_def mapValues_def by (simp add: Let_def)
  have v1: "\<forall>c\<in>set v. \<not> (c \<le> 0x1F \<or> c = 0x7F)"
    unfolding v_def using cleaned_free_of_class [of _ invisibleChars raw]
    by (simp add: invisibleChars_iff)
  have v2: "v \<noteq> [] \<longrightarrow> \<not> isWhiteSpace (hd v) \<and> \<not> isWhiteSpace (last v)"
    unfolding v_def by (simp add: hd_trim last_trim)
  have c: "cleanValue (JStr raw :: ('n, 'd) jsvalue) = JStr w"
    unfolding w_def by (simp add: cleanValue_def)
  have w1: "\<forall>c\<in>set w. \<not> (c \<le> 0x09 \<or> (0x0B \<le> c \<and> c \<le> 0x1F) \<or> c = 0x7F)"
    unfolding w_def using cleaned_free_of_class [of _ controlChars raw]
    by (simp add: controlChars_iff)
  have w2: "w \<noteq> [] \<longrightarrow> \<not> isWhiteSpace (hd w) \<and> \<not> isWhiteSpace (last w)"
    unfolding w_def by (simp add: hd_trim last_trim)
  show ?thesis
    unfolding Let_def v w using m v1 v2 c w1 w2 by blast
qed

theorem cleaning_deletes_control_ranges_witness:
  "mapValues noNumber noDate (JStr [0x20, 0x61, 0x09, 0x62, 0x0A, 0x63, 0x20]) = Inr (JStr [0x61, 0x62, 0x63])
   \<and> mapValues digitsNumber noDate (JStr [0x20, 0x31, 0x09, 0x32, 0x20]) = Inr (JNum 12)
   \<and> cleanValue (JStr [0x20, 0x61, 0x09, 0x62, 0x0A, 0x63, 0x20] :: (unit, unit) jsvalue)
       = JStr [0x61, 0x62, 0x0A, 0x63]"
proof -
  have a: "mapValues noNumber noDate (JStr [0x20, 0x61, 0x09, 0x62, 0x0A, 0x63, 0x20])
             = Inr (JStr [0x61, 0x62, 0x63])"
    using cleaning_deletes_control_ranges
      [where raw = "[0x20, 0x61, 0x09, 0x62, 0x0A, 0x63, 0x20]"
         and toNumber = noNumber and newDate = noDate]
    by (simp add: Let_def cell_eval)
  have b: "mapValues digitsNumber noDate (JStr [0x20, 0x31, 0x09, 0x32, 0x20]) = Inr (JNum 12)"
    using cleaning_deletes_control_ranges
      [where raw = "[0x20, 0x31, 0x09, 0x32, 0x20]"
         and toNumber = digitsNumber and newDate = noDate]
    by (simp add: Let_def cell_eval digitsNumber_def)
  have c: "cleanValue (JStr [0x20, 0x61, 0x09, 0x62, 0x0A, 0x63, 0x20] :: (unit, unit) jsvalue)
             = JStr [0x61, 0x62, 0x0A, 0x63]"
    using cleaning_deletes_control_ranges
      [where raw = "[0x20, 0x61, 0x09, 0x62, 0x0A, 0x63, 0x20]"
         and toNumber = noNumber and newDate = noDate]
    by (simp add: Let_def cell_eval)
  from a b c show ?thesis by simp
qed

text \<open>
  Claim C6 as stated fails: it leaves TAB, LF and CR intact inside a value. Both
  normalizers delete the TAB of \<open>a<TAB>b\<close>; the cell normalizer also deletes an inner
  LF, and the record cleaner an inner CR.
\<close>

theorem cleaning_deletes_tab:
  "mapValues noNumber noDate (JStr [0x61, 0x09, 0x62]) = Inr (JStr [0x61, 0x62])
   \<and> mapValues noNumber noDate (JStr [0x61, 0x0A, 0x62]) = Inr (JStr [0x61, 0x62])
   \<and> cleanValue (JStr [0x61, 0x09, 0x62] :: (unit, unit) jsvalue) = JStr [0x61, 0x62]
   \<and> cleanValue (JStr [0x61, 0x0D, 0x62] :: (unit, unit) jsvalue) = JStr [0x61, 0x62]"
  by (simp add: cleanValue_def cell_eval)

subsection \<open>The patient filter of 2xlsx2.js\<close>

lemma map_of_cleaned:
  "map_of (map (\<lambda>(key, v). (key, cleanValue v)) row) k = map_option cleanValue (map_of row k)"
  by (simp add: map_of_map)

lemma clean_PA100: "cleanValue (JStr (js ''PA100'')) = JStr (js ''PA100'')"
  by (simp add: cleanValue_def cell_eval)

lemma clean_PA999: "cleanValue (JStr (js ''PA999'')) = JStr (js ''PA999'')"
  by (simp add: cleanValue_def cell_eval)

lemma cleanValue_ranges:
  "cleanValue v =
     (case v of
        JStr s \<Rightarrow>
          JStr (trim (filter (\<lambda>c. \<not> (c \<le> 0x09 \<or> (0x0B \<le> c \<and> c \<le> 0x1F) \<or> c = 0x7F)) s))
      | other \<Rightarrow> other)"
  by (simp add: cleanValue_def replace_g_filter controlChars_iff split: jsvalue.splits)

lemma on_record_PA100:
  assumes "map_of row (js ''PATIENT_ID'') = Some (JStr (js ''PA100''))"
  shows "on_record row = Some (map (\<lambda>(key, v). (key, cleanValue v)) row)"
proof -
  have "map_of (map (\<lambda>(key, v). (key, cleanValue v)) row) (js ''PATIENT_ID'')
          = Some (JStr (js ''PA100''))"
    by (simp add: map_of_cleaned assms clean_PA100)
  moreover have "js ''PA100'' \<noteq> []" by (simp add: js_def)
  ultimately show ?thesis
    by (simp add: on_record_def config_def Let_def)
qed

lemma on_record_PA999:
  assumes "map_of row (js ''PATIENT_ID'') = Some (JStr (js ''PA999''))"
  shows "on_record row = None"
proof -
  have "map_of (map (\<lambda>(key, v). (key, cleanValue v)) row) (js ''PATIENT_ID'')
          = Some (JStr (js ''PA999''))"
    by (simp add: map_of_cleaned assms clean_PA999)
  moreover have "js ''PA999'' \<noteq> js ''PA100''" by (simp add: js_def)
  ultimately show ?thesis
    by (simp add: on_record_def config_def Let_def)
qed

lemma on_record_Some:
  assumes "on_record row = Some kept"
  shows "kept = map (\<lambda>(key, v). (key, cleanValue v)) row
         \<and> map_of kept (js ''PATIENT_ID'') = Some (JStr (js ''PA100''))"
  using assms
  by (auto simp: on_record_def config_def Let_def split: option.splits jsvalue.splits if_splits)

lemma parseCSVContent_set:
  "set (parseCSVContent rows) = {kept. \<exists>row\<in>set rows. on_record row = Some kept}"
  unfolding parseCSVContent_def
  by (induction rows) (auto split: option.splits)

text \<open>
  Claim C8. With the allow-list \<open>['PA100']\<close> of \<open>config\<close>, a record whose
  \<open>PATIENT_ID\<close> is \<open>PA999\<close> is dropped (\<open>on_record\<close> returns \<open>null\<close> and nothing is
  emitted for it), and a record whose \<open>PATIENT_ID\<close> is \<open>PA100\<close> is retained: it is
  returned with the same keys, each string value cleaned of control characters and
  trimmed and every other value untouched, and it is among the valid records of the
  file. Every record that is emitted has the identifier \<open>PA100\<close>.
\<close>

theorem patient_filter:
  fixes row :: "('n, 'd) row"
  shows
    "(map_of row (js ''PATIENT_ID'') = Some (JStr (js ''PA999'')) \<longrightarrow>
        on_record row = None
        \<and> (parseCSVContent [row] = []))
     \<and> (map_of row (js ''PATIENT_ID'') = Some (JStr (js ''PA100'')) \<longrightarrow>
        on_record row =
          Some (map (\<lambda>(key, v). (key,
                  case v of
                    JStr s \<Rightarrow>
                      JStr (trim (filter (\<lambda>c. \<not> (c \<le> 0x09 \<or> (0x0B \<le> c \<and> c \<le> 0x1F) \<or> c = 0x7F)) s))
                  | other \<Rightarrow> other)) row)
        \<and> (row \<in> set rows \<longrightarrow>
              (\<exists>kept. on_record row = Some kept \<and> kept \<in> set (validRecords (parseCSVContent rows)))))
     \<and> (\<forall>kept\<in>set (parseCSVContent rows).
           map_of kept (js ''PATIENT_ID'') = Some (JStr (js ''PA100'')))"
proof (intro conjI impI ballI)
  assume h: "map_of row (js ''PATIENT_ID'') = Some (JStr (js ''PA999''))"
  then show "on_record row = None" by (rule on_record_PA999)
  then show "parseCSVContent [row] = []" by (simp add: parseCSVContent_def)
next
  assume h: "map_of row (js ''PATIENT_ID'') = Some (JStr (js ''PA100''))"
  have eq: "(\<lambda>(key, v). (key, cleanValue v :: ('n, 'd) jsvalue)) =
        (\<lambda>(key, v). (key,
                  case v of
                    JStr s \<Rightarrow>
                      JStr (trim (filter (\<lambda>c. \<not> (c \<le> 0x09 \<or> (0x0B \<le> c \<and> c \<le> 0x1F) \<or> c = 0x7F)) s))
                  | other \<Rightarrow> other))"
    by (simp add: cleanValue_ranges [symmetric])
  show "on_record row =
          Some (map (\<lambda>(key, v). (key,
                  case v of
                    JStr s \<Rightarrow>
                      JStr (trim (filter (\<lambda>c. \<not> (c \<le> 0x09 \<or> (0x0B \<le> c \<and> c \<le> 0x1F) \<or> c = 0x7F)) s))
                  | other \<Rightarrow> other)) row)"
    using on_record_PA100 [OF h] by (simp only: eq)
  assume r: "row \<in> set rows"
  let ?kept = "map (\<lambda>(key, v). (key, cleanValue v)) row"
  have k: "on_record row = Some ?kept" by (rule on_record_PA100 [OF h])
  then have "?kept \<in> set (parseCSVContent rows)"
    using r by (auto simp: parseCSVContent_set)
  moreover have "map_of ?kept (js ''PATIENT_ID'') = Some (JStr (js ''PA100''))"
    using on_record_Some [OF k] by simp
  then have "(js ''PATIENT_ID'', JStr (js ''PA100'')) \<in> set ?kept"
    by (rule map_of_SomeD)
  then have "list_ex (\<lambda>(key, v). v \<noteq> JNull \<and> v \<noteq> JStr []) ?kept"
    unfolding list_ex_iff by (rule bexI [rotated]) (simp add: js_def)
  ultimately have "?kept \<in> set (validRecords (parseCSVContent rows))"
    by (simp add: validRecords_def)
  with k show "\<exists>kept. on_record row = Some kept \<and> kept \<in> set (validRecords (parseCSVContent rows))"
    by blast
next
  fix kept :: "('n, 'd) row"
  assume "kept \<in> set (parseCSVContent rows)"
  then obtain r where "on_record r = Some kept" by (auto simp: parseCSVContent_set)
  then show "map_of kept (js ''PATIENT_ID'') = Some (JStr (js ''PA100''))"
    using on_record_Some by blast
qed

theorem patient_filter_witness:
  "map_of rowPA999 (js ''PATIENT_ID'') = Some (JStr (js ''PA999''))
   \<and> on_record rowPA999 = None
   \<and> map_of rowPA100 (js ''PATIENT_ID'') = Some (JStr (js ''PA100''))
   \<and> on_record rowPA100 = Some [(js ''PATIENT_ID'', JStr (js ''PA100'')), (js ''NAME'', JStr (js ''Li''))]
   \<and> validRecords (parseCSVContent [rowPA999, rowPA100])
       = [[(js ''PATIENT_ID'', JStr (js ''PA100'')), (js ''NAME'', JStr (js ''Li''))]]"
proof -
  have a: "map_of rowPA999 (js ''PATIENT_ID'') = Some (JStr (js ''PA999''))"
    by (simp add: rowPA999_def js_def)
  have b: "map_of rowPA100 (js ''PATIENT_ID'') = Some (JStr (js ''PA100''))"
    by (simp add: rowPA100_def js_def)
  have c: "on_record rowPA999 = None"
    using patient_filter [of rowPA999 "[rowPA999, rowPA100]"] a by blast
  have d: "on_record rowPA100
        = Some [(js ''PATIENT_ID'', JStr (js ''PA100'')), (js ''NAME'', JStr (js ''Li''))]"
    using patient_filter [of rowPA100 "[rowPA999, rowPA100]"] b
    by (simp add: rowPA100_def js_def trim_def trimStart_def trimEnd_def isWhiteSpace_def inClass_def)
  have e: "validRecords (parseCSVContent [rowPA999, rowPA100])
       = [[(js ''PATIENT_ID'', JStr (js ''PA100'')), (js ''NAME'', JStr (js ''Li''))]]"
    by (simp add: parseCSVContent_def c d validRecords_def js_def)
  from a b c d e show ?thesis by simp
qed

subsection \<open>Choosing an encoding\<close>

lemma three_or_more:
  "3 \<le> length buffer \<Longrightarrow> \<exists>a b c rest. buffer = a # b # c # rest"
  by (cases buffer; cases "tl buffer"; cases "tl (tl buffer)") auto

text \<open>
  Claim C3, as amended. The byte-order-mark test looks only at buffers of at least three
  bytes. On those it compares the leading bytes, in order, with \<open>EF BB BF\<close> (giving
  \<open>utf8\<close>), \<open>FE FF\<close> (giving \<open>utf16be\<close>) and \<open>FF FE\<close> (giving \<open>utf16le\<close>),
  and the first signature that matches wins; a buffer of fewer than three bytes yields no
  match.
\<close>

theorem sniffBOM_signatures:
  "sniffBOM buffer =
     (if length buffer < 3 then None
      else if take 3 buffer = [0xEF, 0xBB, 0xBF] then Some ''utf8''
      else if take 2 buffer = [0xFE, 0xFF] then Some ''utf16be''
      else if take 2 buffer = [0xFF, 0xFE] then Some ''utf16le''
      else None)"
proof (cases "3 \<le> length buffer")
  case True
  then obtain a b c rest where "buffer = a # b # c # rest"
    using three_or_more by blast
  then show ?thesis by (simp add: sniffBOM_def)
next
  case False
  then show ?thesis by (simp add: sniffBOM_def)
qed

theorem sniffBOM_signatures_witness:
  "sniffBOM [0xEF, 0xBB, 0xBF, 0x41] = Some ''utf8''
   \<and> sniffBOM [0xFE, 0xFF, 0x00, 0x41] = Some ''utf16be''
   \<and> sniffBOM [0xFF, 0xFE, 0x41, 0x00] = Some ''utf16le''
   \<and> sniffBOM [0x41, 0x42, 0x43] = None
   \<and> sniffBOM [0xFE] = None"
  using sniffBOM_signatures [of "[0xEF, 0xBB, 0xBF, 0x41]"]
    sniffBOM_signatures [of "[0xFE, 0xFF, 0x00, 0x41]"]
    sniffBOM_signatures [of "[0xFF, 0xFE, 0x41, 0x00]"]
    sniffBOM_signatures [of "[0x41, 0x42, 0x43]"]
    sniffBOM_signatures [of "[0xFE]"]
  by simp

text \<open>
  Claim C3 as stated fails on the buffers of exactly two bytes: \<open>FE FF\<close> and
  \<open>FF FE\<close> yield no match, where the sniffer of the specification yields the UTF-16
  candidates.
\<close>

theorem sniffBOM_two_bytes:
  "sniffBOM [0xFE, 0xFF] = None \<and> sniffBOM [0xFF, 0xFE] = None
   \<and> spec_sniff [0xFE, 0xFF] = Some ''utf16be'' \<and> spec_sniff [0xFF, 0xFE] = Some ''utf16le''"
  by (simp add: sniffBOM_def spec_sniff_def)

lemma verifyEncodings_find:
  "verifyEncodings decode encode buffer encs = find (validate decode encode buffer) encs"
  by (induction encs) (auto simp: validate_def split: option.splits)

lemma confidenceThreshold_nearest:
  "confidenceThreshold * 2 ^ 53 = 7656119366529843
   \<and> confidenceThreshold < 85 / 100
   \<and> 85 / 100 - confidenceThreshold < 1 / 2 ^ 54"
  by (simp add: confidenceThreshold_def)

lemma lowConfidence_iff:
  "lowConfidence result \<longleftrightarrow>
     result = DetectThrows \<or> result = NoResult
     \<or> (\<exists>label confidence. result = Detected label confidence
           \<and> confidence < 7656119366529843 / 9007199254740992)"
  by (cases result) (auto simp: confidenceThreshold_def)

text \<open>
  Claim C2, as amended. For a buffer that was read:
  \<^item> if the detector call throws, \<open>utf8\<close> is selected, with no look at the buffer;
  \<^item> if the detector reports a confidence of at least the double \<open>0.85\<close>, which is
    \<open>7656119366529843 / 2^53\<close>, its normalized label is selected (\<open>utf8\<close> when there
    is no label or the normalisation raises);
  \<^item> otherwise (no result, or a confidence below that double), a byte-order mark of a buffer of
    at least three bytes selects its encoding; failing that, the first encoding of
    \<open>utf8\<close>, \<open>gbk\<close>, \<open>big5\<close>, \<open>shift-jis\<close> under which the buffer decodes and
    encodes back to itself is selected; and \<open>utf8\<close> if there is none.
\<close>

theorem detectFileEncoding_priority:
  "(detect buffer = DetectThrows \<longrightarrow>
       detectFileEncoding detect decode encode (Some buffer) = ''utf8'')
   \<and> (detect buffer = Detected (Some label) confidence \<and> 7656119366529843 / 9007199254740992 \<le> confidence \<longrightarrow>
       detectFileEncoding detect decode encode (Some buffer) =
         (case normalizeEncoding label of Some encoding \<Rightarrow> encoding | None \<Rightarrow> ''utf8''))
   \<and> (detect buffer = Detected None confidence \<and> 7656119366529843 / 9007199254740992 \<le> confidence \<longrightarrow>
       detectFileEncoding detect decode encode (Some buffer) = ''utf8'')
   \<and> (detect buffer = NoResult \<or> (detect buffer = Detected anyLabel confidence \<and> confidence < 7656119366529843 / 9007199254740992) \<longrightarrow>
       detectFileEncoding detect decode encode (Some buffer) =
         (if 3 \<le> length buffer \<and> take 3 buffer = [0xEF, 0xBB, 0xBF] then ''utf8''
          else if 3 \<le> length buffer \<and> take 2 buffer = [0xFE, 0xFF] then ''utf16be''
          else if 3 \<le> length buffer \<and> take 2 buffer = [0xFF, 0xFE] then ''utf16le''
          else
            (case find (validate decode encode buffer) [''utf8'', ''gbk'', ''big5'', ''shift-jis''] of
               Some enc \<Rightarrow> enc
             | None \<Rightarrow> ''utf8'')))"
proof -
  have bom: "sniffBOM buffer =
     (if 3 \<le> length buffer \<and> take 3 buffer = [0xEF, 0xBB, 0xBF] then Some ''utf8''
      else if 3 \<le> length buffer \<and> take 2 buffer = [0xFE, 0xFF] then Some ''utf16be''
      else if 3 \<le> length buffer \<and> take 2 buffer = [0xFF, 0xFE] then Some ''utf16le''
      else None)"
  proof (cases "3 \<le> length buffer")
    case True
    then obtain a b c rest where "buffer = a # b # c # rest"
      using three_or_more by blast
    then show ?thesis by (simp add: sniffBOM_def)
  next
    case False
    then show ?thesis by (simp add: sniffBOM_def)
  qed
  have low: "lowConfidence (detect buffer) \<Longrightarrow> detect buffer \<noteq> DetectThrows \<Longrightarrow>
      detectFileEncoding detect decode encode (Some buffer) =
        (case sniffBOM buffer of
           Some enc \<Rightarrow> enc
         | None \<Rightarrow>
            (case find (validate decode encode buffer) [''utf8'', ''gbk'', ''big5'', ''shift-jis''] of
               Some enc \<Rightarrow> enc
             | None \<Rightarrow> ''utf8''))"
    unfolding detectFileEncoding_def verifyEncodings_find testEncodings_def
    by (cases "detect buffer") simp_all
  show ?thesis
  proof (intro conjI impI)
    assume "detect buffer = DetectThrows"
    then show "detectFileEncoding detect decode encode (Some buffer) = ''utf8''"
      by (simp add: detectFileEncoding_def)
  next
    assume "detect buffer = Detected (Some label) confidence \<and> 7656119366529843 / 9007199254740992 \<le> confidence"
    then show "detectFileEncoding detect decode encode (Some buffer) =
         (case normalizeEncoding label of Some encoding \<Rightarrow> encoding | None \<Rightarrow> ''utf8'')"
      by (simp add: detectFileEncoding_def confidenceThreshold_def)
  next
    assume "detect buffer = Detected None confidence \<and> 7656119366529843 / 9007199254740992 \<le> confidence"
    then show "detectFileEncoding detect decode encode (Some buffer) = ''utf8''"
      by (simp add: detectFileEncoding_def confidenceThreshold_def)
  next
    assume "detect buffer = NoResult
              \<or> (detect buffer = Detected anyLabel confidence \<and> confidence < 7656119366529843 / 9007199254740992)"
    then have "lowConfidence (detect buffer)" "detect buffer \<noteq> DetectThrows"
      by (auto simp: confidenceThreshold_def)
    then show "detectFileEncoding detect decode encode (Some buffer) =
         (if 3 \<le> length buffer \<and> take 3 buffer = [0xEF, 0xBB, 0xBF] then ''utf8''
          else if 3 \<le> length buffer \<and> take 2 buffer = [0xFE, 0xFF] then ''utf16be''
          else if 3 \<le> length buffer \<and> take 2 buffer = [0xFF, 0xFE] then ''utf16le''
          else
            (case find (validate decode encode buffer) [''utf8'', ''gbk'', ''big5'', ''shift-jis''] of
               Some enc \<Rightarrow> enc
             | None \<Rightarrow> ''utf8''))"
      by (simp add: low bom)
  qed
qed

subsection \<open>Decoding and repair\<close>

lemma tryFallbacks_find:
  "tryFallbacks decode buffer encoding encs =
     (case find (\<lambda>e. e \<noteq> encoding \<and> decode buffer e \<noteq> None) encs of
        Some e \<Rightarrow> decode buffer e
      | None \<Rightarrow> None)"
  by (induction encs) (auto split: option.splits)

lemma tryFallbacks_None:
  "tryFallbacks decode buffer encoding encs = None \<longleftrightarrow>
     (\<forall>e\<in>set encs. e \<noteq> encoding \<longrightarrow> decode buffer e = None)"
  by (induction encs) (auto split: option.splits)

lemma convertEach_counts:
  "convertEach convert files r =
     r\<lparr>success := success r + length (filter convert files),
       failed := failed r + length (filter (\<lambda>f. \<not> convert f) files),
       failedFiles := failedFiles r @ filter (\<lambda>f. \<not> convert f) files\<rparr>"
  by (induction files arbitrary: r) auto

lemma processDirectory_counts:
  "processDirectory convert files =
     \<lparr>success = length (filter convert files),
      failed = length (filter (\<lambda>f. \<not> convert f) files),
      total = length files,
      failedFiles = filter (\<lambda>f. \<not> convert f) files\<rparr>"
  by (simp add: processDirectory_def convertEach_counts)

text \<open>
  Claim C7. When decoding under the selected encoding throws, the encodings \<open>utf8\<close>,
  \<open>gbk\<close>, \<open>big5\<close>, \<open>shift-jis\<close>, \<open>cp1252\<close> are tried in this order, the selected
  one skipped, and the text of the first that decodes is returned. The function fails
  exactly when every encoding of the list fails. That failure is fatal to the one file
  only: its conversion is reported as failed, and the batch counts it among the failed
  files and converts the files before and after it as it would without it.
\<close>

theorem decode_fallback_order:
  assumes "decode buffer encoding = None"
  shows
    "(find (\<lambda>e. e \<noteq> encoding \<and> decode buffer e \<noteq> None)
         [''utf8'', ''gbk'', ''big5'', ''shift-jis'', ''cp1252''] = Some e
       \<and> decode buffer e = Some content \<longrightarrow>
         readAndDecodeCSV decode (Some buffer) encoding = Inr content)
     \<and> ((\<exists>err. readAndDecodeCSV decode (Some buffer) encoding = Inl err) \<longleftrightarrow>
          (\<forall>e\<in>set [''utf8'', ''gbk'', ''big5'', ''shift-jis'', ''cp1252'']. decode buffer e = None))
     \<and> ((\<forall>e\<in>set [''utf8'', ''gbk'', ''big5'', ''shift-jis'', ''cp1252'']. decode buffer e = None)
          \<and> detectFileEncoding detect decode encode (Some buffer) = encoding \<longrightarrow>
          readAndDecodeCSV decode (Some buffer) encoding = Inl AllEncodingsFailed
          \<and> \<not> convertCsvToExcel detect decode encode writeSheet (Some buffer)
          \<and> processDirectory (convertCsvToExcel detect decode encode writeSheet)
               (before @ Some buffer # after) =
             \<lparr>success = length (filter (convertCsvToExcel detect decode encode writeSheet) before)
                        + length (filter (convertCsvToExcel detect decode encode writeSheet) after),
              failed = length (filter (\<lambda>f. \<not> convertCsvToExcel detect decode encode writeSheet f) before)
                        + 1
                        + length (filter (\<lambda>f. \<not> convertCsvToExcel detect decode encode writeSheet f) after),
              total = length before + 1 + length after,
              failedFiles = filter (\<lambda>f. \<not> convertCsvToExcel detect decode encode writeSheet f) before
                        @ [Some buffer]
                        @ filter (\<lambda>f. \<not> convertCsvToExcel detect decode encode writeSheet f) after\<rparr>)"
proof (intro conjI impI)
  assume "find (\<lambda>e. e \<noteq> encoding \<and> decode buffer e \<noteq> None)
            [''utf8'', ''gbk'', ''big5'', ''shift-jis'', ''cp1252''] = Some e
          \<and> decode buffer e = Some content"
  then have "tryFallbacks decode buffer encoding fallbackEncodings = Some content"
    by (simp add: tryFallbacks_find fallbackEncodings_def)
  then show "readAndDecodeCSV decode (Some buffer) encoding = Inr content"
    using assms by (simp add: readAndDecodeCSV_def)
next
  have "(\<exists>err. readAndDecodeCSV decode (Some buffer) encoding = Inl err) \<longleftrightarrow>
          tryFallbacks decode buffer encoding fallbackEncodings = None"
    using assms by (auto simp: readAndDecodeCSV_def split: option.splits)
  also have "\<dots> \<longleftrightarrow> (\<forall>e\<in>set fallbackEncodings. decode buffer e = None)"
    using assms by (auto simp: tryFallbacks_None)
  finally show "(\<exists>err. readAndDecodeCSV decode (Some buffer) encoding = Inl err) \<longleftrightarrow>
          (\<forall>e\<in>set [''utf8'', ''gbk'', ''big5'', ''shift-jis'', ''cp1252'']. decode buffer e = None)"
    by (simp only: fallbackEncodings_def)
next
  assume h: "(\<forall>e\<in>set [''utf8'', ''gbk'', ''big5'', ''shift-jis'', ''cp1252'']. decode buffer e = None)
          \<and> detectFileEncoding detect decode encode (Some buffer) = encoding"
  then have "tryFallbacks decode buffer encoding fallbackEncodings = None"
    unfolding tryFallbacks_None fallbackEncodings_def by blast
  then show failure: "readAndDecodeCSV decode (Some buffer) encoding = Inl AllEncodingsFailed"
    using assms by (simp add: readAndDecodeCSV_def)
  with h show no: "\<not> convertCsvToExcel detect decode encode writeSheet (Some buffer)"
    by (simp add: convertCsvToExcel_def)
  then show "processDirectory (convertCsvToExcel detect decode encode writeSheet)
               (before @ Some buffer # after) =
             \<lparr>success = length (filter (convertCsvToExcel detect decode encode writeSheet) before)
                        + length (filter (convertCsvToExcel detect decode encode writeSheet) after),
              failed = length (filter (\<lambda>f. \<not> convertCsvToExcel detect decode encode writeSheet f) before)
                        + 1
                        + length (filter (\<lambda>f. \<not> convertCsvToExcel detect decode encode writeSheet f) after),
              total = length before + 1 + length after,
              failedFiles = filter (\<lambda>f. \<not> convertCsvToExcel detect decode encode writeSheet f) before
                        @ [Some buffer]
                        @ filter (\<lambda>f. \<not> convertCsvToExcel detect decode encode writeSheet f) after\<rparr>"
    by (simp add: processDirectory_counts)
qed

text \<open>
  Claim C9. When decoding under the selected encoding throws and a fallback decodes, the
  text of the first such fallback is returned as it is, whatever its density of bad
  characters: the repair step does not run on it. The same text, had its encoding been
  the selected one, would have gone through the repair step.
\<close>

theorem fallback_not_rescanned:
  assumes "decode buffer encoding = None"
    and "find (\<lambda>e. e \<noteq> encoding \<and> decode buffer e \<noteq> None) fallbackEncodings = Some e"
    and "decode buffer e = Some content"
  shows "readAndDecodeCSV decode (Some buffer) encoding = Inr content
         \<and> readAndDecodeCSV decode (Some buffer) e = Inr (rescan decode buffer content)"
proof
  have "tryFallbacks decode buffer encoding fallbackEncodings = Some content"
    using assms(2,3) by (simp add: tryFallbacks_find)
  then show "readAndDecodeCSV decode (Some buffer) encoding = Inr content"
    using assms(1) by (simp add: readAndDecodeCSV_def)
  show "readAndDecodeCSV decode (Some buffer) e = Inr (rescan decode buffer content)"
    using assms(3) by (simp add: readAndDecodeCSV_def)
qed

lemma garbleChars_iff:
  "inClass garbleChars c \<longleftrightarrow>
     c = 0xFFFD \<or> c \<le> 0x08 \<or> (0x0B \<le> c \<and> c \<le> 0x0C) \<or> (0x0E \<le> c \<and> c \<le> 0x1F)"
  by (auto simp: inClass_def garbleChars_def)

lemma matches_g_filter: "matches_g cls s = filter (inClass cls) s"
  by (induction s) auto

lemma length_matches_garble: "length (matches_g garbleChars s) = badCharacterScore s"
proof -
  have "inClass garbleChars =
          (\<lambda>c. c = 0xFFFD \<or> c \<le> 0x08 \<or> (0x0B \<le> c \<and> c \<le> 0x0C) \<or> (0x0E \<le> c \<and> c \<le> 0x1F))"
    by (rule ext) (rule garbleChars_iff)
  then show ?thesis by (simp add: matches_g_filter badCharacterScore_def)
qed

lemma match_g_None: "match_g garbleChars s = None \<longleftrightarrow> badCharacterScore s = 0"
  unfolding length_matches_garble [symmetric] match_g_def
  by (cases "matches_g garbleChars s") auto

lemma match_g_Some: "match_g garbleChars s = Some m \<Longrightarrow> length m = badCharacterScore s \<and> m \<noteq> []"
  unfolding length_matches_garble [symmetric] match_g_def
  by (cases "matches_g garbleChars s") auto

lemma tryAlternatives_find:
  assumes "0 < length invalidChars"
  shows "tryAlternatives decode buffer invalidChars alts =
     (case find (\<lambda>alt. case decode buffer alt of
                         Some altContent \<Rightarrow> badCharacterScore altContent < length invalidChars
                       | None \<Rightarrow> False) alts of
        Some alt \<Rightarrow> decode buffer alt
      | None \<Rightarrow> None)"
proof (induction alts)
  case Nil
  show ?case by simp
next
  case (Cons alt alts)
  show ?case
  proof (cases "decode buffer alt")
    case None
    with Cons show ?thesis by simp
  next
    case (Some altContent)
    show ?thesis
    proof (cases "match_g garbleChars altContent")
      case None
      then have "badCharacterScore altContent = 0" by (simp add: match_g_None)
      with None Some assms show ?thesis by simp
    next
      case (Some m)
      then have "length m = badCharacterScore altContent" by (simp add: match_g_Some)
      with Some \<open>decode buffer alt = Some altContent\<close> Cons show ?thesis by simp
    qed
  qed
qed

text \<open>
  Claim C1, as amended. Let the initial decode succeed, with \<open>k\<close> bad characters in a
  text of length \<open>n\<close>. If \<open>10 * k \<le> n\<close> (a ratio of at most 0.10) the initial text
  is returned. If \<open>10 * k > n\<close>, the alternatives \<open>gbk\<close>, \<open>big5\<close>, \<open>shift-jis\<close> are
  decoded in this order and the first one that decodes with fewer than \<open>k\<close> bad
  characters is returned; if there is none, the initial text is returned unchanged.
\<close>

theorem rescan_first_better:
  assumes "decode buffer encoding = Some content"
  shows
    "(10 * badCharacterScore content \<le> length content \<longrightarrow>
        readAndDecodeCSV decode (Some buffer) encoding = Inr content)
     \<and> (length content < 10 * badCharacterScore content \<longrightarrow>
        (find (\<lambda>alt. case decode buffer alt of
                       Some altContent \<Rightarrow> badCharacterScore altContent < badCharacterScore content
                     | None \<Rightarrow> False) [''gbk'', ''big5'', ''shift-jis''] = Some alt
          \<and> decode buffer alt = Some altContent \<longrightarrow>
            readAndDecodeCSV decode (Some buffer) encoding = Inr altContent)
        \<and> (find (\<lambda>alt. case decode buffer alt of
                       Some altContent \<Rightarrow> badCharacterScore altContent < badCharacterScore content
                     | None \<Rightarrow> False) [''gbk'', ''big5'', ''shift-jis''] = None \<longrightarrow>
            readAndDecodeCSV decode (Some buffer) encoding = Inr content))"
proof -
  have r: "readAndDecodeCSV decode (Some buffer) encoding = Inr (rescan decode buffer content)"
    using assms by (simp add: readAndDecodeCSV_def)
  show ?thesis
  proof (cases "match_g garbleChars content")
    case None
    then have "badCharacterScore content = 0" by (simp add: match_g_None)
    with None show ?thesis by (simp add: r rescan_def)
  next
    case (Some invalidChars)
    then have len: "length invalidChars = badCharacterScore content" and ne: "invalidChars \<noteq> []"
      using match_g_Some by blast+
    from ne have pos: "0 < length invalidChars" by simp
    show ?thesis
      unfolding r rescan_def Some option.case tryAlternatives_find [OF pos] alternativeEncodings_def len
      by (auto split: option.splits)
  qed
qed

subsection \<open>Examples of the pipeline\<close>

lemmas codec_eval =
  tableDecode_def asciiDecode_def asciiEncode_def knownEncodings_def unsureDetector_def

lemmas pipeline_eval =
  detectFileEncoding_def sniffBOM_def testEncodings_def normalizeEncoding_def toLowerCase_def
  encodingMap_def readAndDecodeCSV_def rescan_def match_g_def garbleChars_def inClass_def
  fallbackEncodings_def alternativeEncodings_def convertCsvToExcel_def
  trim_def trimStart_def trimEnd_def isWhiteSpace_def confidenceThreshold_def

theorem detectFileEncoding_priority_witness:
  "detectFileEncoding throwingDetector asciiDecode asciiEncode (Some [0xFE, 0xFF, 0x00, 0x41]) = ''utf8''
   \<and> detectFileEncoding sureDetector asciiDecode asciiEncode (Some [0x69, 0x64]) = ''gbk''
   \<and> detectFileEncoding unsureDetector asciiDecode asciiEncode (Some [0xFE, 0xFF, 0x00, 0x41]) = ''utf16be''
   \<and> detectFileEncoding unsureDetector (tableDecode zhongDecoded) (tableEncode zhongEncoded)
         (Some [0xD6, 0xD0]) = ''gbk''
   \<and> detectFileEncoding unsureDetector asciiDecode asciiEncode (Some [0xD6, 0xD0]) = ''utf8''
   \<and> detectFileEncoding labellessDetector asciiDecode asciiEncode (Some [0x69, 0x64]) = ''utf8''
   \<and> detectFileEncoding boundaryDetector asciiDecode asciiEncode (Some [0xFE, 0xFF, 0x00, 0x41]) = ''gbk''"
proof -
  have a: "detectFileEncoding throwingDetector asciiDecode asciiEncode (Some [0xFE, 0xFF, 0x00, 0x41]) = ''utf8''"
    using detectFileEncoding_priority
      [where detect = throwingDetector and buffer = "[0xFE, 0xFF, 0x00, 0x41]"
         and decode = asciiDecode and encode = asciiEncode]
    by (simp add: throwingDetector_def)
  have b: "detectFileEncoding sureDetector asciiDecode asciiEncode (Some [0x69, 0x64]) = ''gbk''"
    using detectFileEncoding_priority
      [where detect = sureDetector and buffer = "[0x69, 0x64]" and label = "''GB2312''"
         and confidence = "99 / 100" and decode = asciiDecode and encode = asciiEncode]
    by (simp add: sureDetector_def normalizeEncoding_def toLowerCase_def encodingMap_def)
  have c: "detectFileEncoding unsureDetector asciiDecode asciiEncode (Some [0xFE, 0xFF, 0x00, 0x41]) = ''utf16be''"
    using detectFileEncoding_priority
      [where detect = unsureDetector and buffer = "[0xFE, 0xFF, 0x00, 0x41]"
         and anyLabel = "Some ''GB2312''" and confidence = "1 / 2"
         and decode = asciiDecode and encode = asciiEncode]
    by (simp add: unsureDetector_def)
  have d: "detectFileEncoding unsureDetector (tableDecode zhongDecoded) (tableEncode zhongEncoded)
         (Some [0xD6, 0xD0]) = ''gbk''"
    using detectFileEncoding_priority
      [where detect = unsureDetector and buffer = "[0xD6, 0xD0]"
         and anyLabel = "Some ''GB2312''" and confidence = "1 / 2"
         and decode = "tableDecode zhongDecoded" and encode = "tableEncode zhongEncoded"]
    by (simp add: unsureDetector_def validate_def tableDecode_def tableEncode_def
          zhongDecoded_def zhongEncoded_def)
  have e: "detectFileEncoding unsureDetector asciiDecode asciiEncode (Some [0xD6, 0xD0]) = ''utf8''"
    using detectFileEncoding_priority
      [where detect = unsureDetector and buffer = "[0xD6, 0xD0]"
         and anyLabel = "Some ''GB2312''" and confidence = "1 / 2"
         and decode = asciiDecode and encode = asciiEncode]
    by (simp add: unsureDetector_def validate_def asciiDecode_def asciiEncode_def knownEncodings_def)
  have f: "detectFileEncoding labellessDetector asciiDecode asciiEncode (Some [0x69, 0x64]) = ''utf8''"
    using detectFileEncoding_priority
      [where detect = labellessDetector and buffer = "[0x69, 0x64]" and confidence = "9 / 10"
         and decode = asciiDecode and encode = asciiEncode]
    by (simp add: labellessDetector_def)
  have g: "detectFileEncoding boundaryDetector asciiDecode asciiEncode (Some [0xFE, 0xFF, 0x00, 0x41]) = ''gbk''"
    using detectFileEncoding_priority
      [where detect = boundaryDetector and buffer = "[0xFE, 0xFF, 0x00, 0x41]"
         and label = "''GB2312''" and confidence = "7656119366529843 / 9007199254740992"
         and decode = asciiDecode and encode = asciiEncode]
    by (simp add: boundaryDetector_def normalizeEncoding_def toLowerCase_def encodingMap_def)
  from a b c d e f g show ?thesis by simp
qed

text \<open>
  Claim C2 as stated fails twice. With a detector that throws, a buffer that starts with
  the byte-order mark \<open>FE FF\<close> gets \<open>utf8\<close>, not the encoding of its mark. With a
  detector that is unsure, the buffer of the two bytes \<open>FE FF\<close>, a mark for the sniffer
  of the specification, gets \<open>utf8\<close> as well.
\<close>

theorem detectFileEncoding_off_chain:
  "detectFileEncoding throwingDetector asciiDecode asciiEncode (Some [0xFE, 0xFF, 0x00, 0x41]) = ''utf8''
   \<and> spec_sniff [0xFE, 0xFF, 0x00, 0x41] = Some ''utf16be''
   \<and> detectFileEncoding unsureDetector asciiDecode asciiEncode (Some [0xFE, 0xFF]) = ''utf8''
   \<and> spec_sniff [0xFE, 0xFF] = Some ''utf16be''"
  by (simp add: pipeline_eval codec_eval throwingDetector_def spec_sniff_def)

theorem decode_fallback_order_witness:
  "tableDecode [(''gbk'', js ''ok''), (''big5'', js ''no'')] [0x41] ''utf8'' = None
   \<and> readAndDecodeCSV (tableDecode [(''gbk'', js ''ok''), (''big5'', js ''no'')]) (Some [0x41]) ''utf8''
        = Inr (js ''ok'')
   \<and> rejectFF [0xFF, 0x41] ''utf8'' = None
   \<and> readAndDecodeCSV rejectFF (Some [0xFF, 0x41]) ''utf8'' = Inl AllEncodingsFailed
   \<and> \<not> convertCsvToExcel unsureDetector rejectFF asciiEncode alwaysWrites (Some [0xFF, 0x41])
   \<and> processDirectory (convertCsvToExcel unsureDetector rejectFF asciiEncode alwaysWrites)
        [Some [0x69, 0x64], Some [0xFF, 0x41], Some [0x61]]
        = \<lparr>success = 2, failed = 1, total = 3, failedFiles = [Some [0xFF, 0x41]]\<rparr>"
proof -
  let ?t = "tableDecode [(''gbk'', js ''ok''), (''big5'', js ''no'')]"
  have a: "?t [0x41] ''utf8'' = None" by (simp add: tableDecode_def)
  have b: "readAndDecodeCSV ?t (Some [0x41]) ''utf8'' = Inr (js ''ok'')"
    using decode_fallback_order
      [where decode = ?t and buffer = "[0x41]" and encoding = "''utf8''" and e = "''gbk''"
         and content = "js ''ok''", OF a]
    by (simp add: tableDecode_def)
  have c: "rejectFF [0xFF, 0x41] ''utf8'' = None" by (simp add: rejectFF_def)
  have d: "detectFileEncoding unsureDetector rejectFF asciiEncode (Some [0xFF, 0x41]) = ''utf8''"
    by (simp add: pipeline_eval codec_eval rejectFF_def)
  have e: "\<forall>e\<in>set [''utf8'', ''gbk'', ''big5'', ''shift-jis'', ''cp1252'']. rejectFF [0xFF, 0x41] e = None"
    by (simp add: rejectFF_def)
  have ok1: "convertCsvToExcel unsureDetector rejectFF asciiEncode alwaysWrites (Some [0x69, 0x64])"
    by (simp add: pipeline_eval codec_eval rejectFF_def alwaysWrites_def)
  have ok2: "convertCsvToExcel unsureDetector rejectFF asciiEncode alwaysWrites (Some [0x61])"
    by (simp add: pipeline_eval codec_eval rejectFF_def alwaysWrites_def)
  have f: "readAndDecodeCSV rejectFF (Some [0xFF, 0x41]) ''utf8'' = Inl AllEncodingsFailed
        \<and> \<not> convertCsvToExcel unsureDetector rejectFF asciiEncode alwaysWrites (Some [0xFF, 0x41])
        \<and> processDirectory (convertCsvToExcel unsureDetector rejectFF asciiEncode alwaysWrites)
             [Some [0x69, 0x64], Some [0xFF, 0x41], Some [0x61]]
             = \<lparr>success = 2, failed = 1, total = 3, failedFiles = [Some [0xFF, 0x41]]\<rparr>"
    using decode_fallback_order
      [where decode = rejectFF and buffer = "[0xFF, 0x41]" and encoding = "''utf8''"
         and detect = unsureDetector and encode = asciiEncode and writeSheet = alwaysWrites
         and before = "[Some [0x69, 0x64]]" and after = "[Some [0x61]]", OF c]
      d e ok1 ok2
    by simp
  from a b c f show ?thesis by simp
qed

theorem fallback_not_rescanned_witness:
  "tableDecode betterAndBest [0xD6, 0xD0] ''latin9'' = None
   \<and> readAndDecodeCSV (tableDecode betterAndBest) (Some [0xD6, 0xD0]) ''latin9''
        = Inr [0xFFFD, 0xFFFD, 0x41]
   \<and> readAndDecodeCSV (tableDecode betterAndBest) (Some [0xD6, 0xD0]) ''utf8''
        = Inr [0xFFFD, 0x41, 0x42]"
proof -
  have a: "tableDecode betterAndBest [0xD6, 0xD0] ''latin9'' = None"
    by (simp add: tableDecode_def betterAndBest_def)
  have b: "find (\<lambda>e. e \<noteq> ''latin9'' \<and> tableDecode betterAndBest [0xD6, 0xD0] e \<noteq> None)
             fallbackEncodings = Some ''utf8''"
    by (simp add: tableDecode_def betterAndBest_def fallbackEncodings_def)
  have c: "tableDecode betterAndBest [0xD6, 0xD0] ''utf8'' = Some [0xFFFD, 0xFFFD, 0x41]"
    by (simp add: tableDecode_def betterAndBest_def)
  have d: "rescan (tableDecode betterAndBest) [0xD6, 0xD0] [0xFFFD, 0xFFFD, 0x41] = [0xFFFD, 0x41, 0x42]"
    by (simp add: pipeline_eval codec_eval betterAndBest_def)
  show ?thesis using fallback_not_rescanned
      [where decode = "tableDecode betterAndBest" and buffer = "[0xD6, 0xD0]"
         and encoding = "''latin9''" and e = "''utf8''" and content = "[0xFFFD, 0xFFFD, 0x41]",
       OF a b c] a d by simp
qed

theorem rescan_first_better_witness:
  "readAndDecodeCSV (tableDecode atThreshold) (Some [0xD6, 0xD0]) ''utf8''
       = Inr [0x69, 0x64, 0x2C, 0x6E, 0x61, 0x6D, 0x65, 0x2C, 0x63, 0xFFFD]
   \<and> readAndDecodeCSV (tableDecode betterAndBest) (Some [0xD6, 0xD0]) ''utf8''
       = Inr [0xFFFD, 0x41, 0x42]
   \<and> readAndDecodeCSV (tableDecode noneBetter) (Some [0xD6, 0xD0]) ''utf8''
       = Inr [0xFFFD, 0xFFFD, 0x41]"
proof -
  have a: "tableDecode atThreshold [0xD6, 0xD0] ''utf8''
             = Some [0x69, 0x64, 0x2C, 0x6E, 0x61, 0x6D, 0x65, 0x2C, 0x63, 0xFFFD]"
    by (simp add: tableDecode_def atThreshold_def)
  have b: "tableDecode betterAndBest [0xD6, 0xD0] ''utf8'' = Some [0xFFFD, 0xFFFD, 0x41]"
    by (simp add: tableDecode_def betterAndBest_def)
  have c: "tableDecode noneBetter [0xD6, 0xD0] ''utf8'' = Some [0xFFFD, 0xFFFD, 0x41]"
    by (simp add: tableDecode_def noneBetter_def)
  have 1: "readAndDecodeCSV (tableDecode atThreshold) (Some [0xD6, 0xD0]) ''utf8''
       = Inr [0x69, 0x64, 0x2C, 0x6E, 0x61, 0x6D, 0x65, 0x2C, 0x63, 0xFFFD]"
    using rescan_first_better
      [where decode = "tableDecode atThreshold" and buffer = "[0xD6, 0xD0]"
         and encoding = "''utf8''", OF a] by (simp add: badCharacterScore_def)
  have 2: "readAndDecodeCSV (tableDecode betterAndBest) (Some [0xD6, 0xD0]) ''utf8''
       = Inr [0xFFFD, 0x41, 0x42]"
    using rescan_first_better
      [where decode = "tableDecode betterAndBest" and buffer = "[0xD6, 0xD0]"
         and encoding = "''utf8''" and alt = "''gbk''" and altContent = "[0xFFFD, 0x41, 0x42]",
       OF b]
    by (simp add: badCharacterScore_def tableDecode_def betterAndBest_def)
  have 3: "readAndDecodeCSV (tableDecode noneBetter) (Some [0xD6, 0xD0]) ''utf8''
       = Inr [0xFFFD, 0xFFFD, 0x41]"
    using rescan_first_better
      [where decode = "tableDecode noneBetter" and buffer = "[0xD6, 0xD0]"
         and encoding = "''utf8''", OF c]
    by (simp add: badCharacterScore_def tableDecode_def noneBetter_def)
  from 1 2 3 show ?thesis by simp
qed

text \<open>
  Claim C1 as stated fails three times.
  \<^item> At a ratio of exactly 0.10 the initial text is returned although the GBK text has no
    bad character.
  \<^item> Above the threshold the GBK text, the first with fewer bad characters, is returned
    although the Big5 text has fewer still.
  \<^item> Counts are compared, not ratios: the initial text (two bad characters of four) is
    returned although the GBK text (two of eight) has the lower ratio.
\<close>

theorem rescan_threshold_and_choice:
  "readAndDecodeCSV (tableDecode atThreshold) (Some [0xD6, 0xD0]) ''utf8''
       = Inr [0x69, 0x64, 0x2C, 0x6E, 0x61, 0x6D, 0x65, 0x2C, 0x63, 0xFFFD]
   \<and> 10 * badCharacterScore [0x69, 0x64, 0x2C, 0x6E, 0x61, 0x6D, 0x65, 0x2C, 0x63, 0xFFFD]
       = length [0x69, 0x64, 0x2C, 0x6E, 0x61, 0x6D, 0x65, 0x2C, 0x63, 0xFFFD :: unit16]
   \<and> tableDecode atThreshold [0xD6, 0xD0] ''gbk''
       = Some [0x69, 0x64, 0x2C, 0x6E, 0x61, 0x6D, 0x65, 0x2C, 0x63, 0x6E]
   \<and> badCharacterScore [0x69, 0x64, 0x2C, 0x6E, 0x61, 0x6D, 0x65, 0x2C, 0x63, 0x6E] = 0
   \<and> readAndDecodeCSV (tableDecode betterAndBest) (Some [0xD6, 0xD0]) ''utf8''
       = Inr [0xFFFD, 0x41, 0x42]
   \<and> tableDecode betterAndBest [0xD6, 0xD0] ''big5'' = Some [0x41, 0x42]
   \<and> badCharacterScore [0x41, 0x42] < badCharacterScore [0xFFFD, 0x41, 0x42]
   \<and> readAndDecodeCSV (tableDecode longerText) (Some [0xD6, 0xD0]) ''utf8''
       = Inr [0xFFFD, 0xFFFD, 0x41, 0x42]
   \<and> tableDecode longerText [0xD6, 0xD0] ''gbk''
       = Some [0xFFFD, 0xFFFD, 0x41, 0x42, 0x43, 0x44, 0x45, 0x46]
   \<and> badCharacterScore [0xFFFD, 0xFFFD, 0x41, 0x42, 0x43, 0x44, 0x45, 0x46]
         * length [0xFFFD, 0xFFFD, 0x41, 0x42 :: unit16]
       < badCharacterScore [0xFFFD, 0xFFFD, 0x41, 0x42]
         * length [0xFFFD, 0xFFFD, 0x41, 0x42, 0x43, 0x44, 0x45, 0x46 :: unit16]"
  by (simp add: pipeline_eval codec_eval badCharacterScore_def atThreshold_def
        betterAndBest_def longerText_def)

end
